theory Spec2Isabelle
  imports Complex_Main "HOL-Library.Sublist"
begin

section \<open>JavaScript string primitives used by the pipelines\<close>

text \<open>
  A JavaScript string is modelled as a \<^typ>\<open>string\<close>: one \<^typ>\<open>char\<close> stands for one
  code unit, so \<open>length\<close> is the \<open>.length\<close> of the source.
\<close>

text \<open>
  \<^verbatim>\<open>s.split(c)\<close> for a one-character separator \<open>c\<close>: the pieces between the
  occurrences of \<open>c\<close>, empty pieces kept; the empty string gives one empty piece.
\<close>

fun split_on :: "char \<Rightarrow> string \<Rightarrow> string list" where
  "split_on c [] = [[]]"
| "split_on c (a # s) =
     (if a = c then [] # split_on c s
      else (case split_on c s of
              [] \<Rightarrow> [[a]]
            | w # ws \<Rightarrow> (a # w) # ws))"

text \<open>\<^verbatim>\<open>ws.join(sep)\<close>.\<close>

fun join_with :: "string \<Rightarrow> string list \<Rightarrow> string" where
  "join_with sep [] = []"
| "join_with sep [w] = w"
| "join_with sep (w # v # ws) = w @ sep @ join_with sep (v # ws)"

section \<open>Greedy word wrap (\<^verbatim>\<open>src/lib/utils.ts\<close>, \<^verbatim>\<open>wrapText\<close>)\<close>

text \<open>The objects \<^verbatim>\<open>{ text, x }\<close> that \<^verbatim>\<open>wrapText\<close> returns.\<close>

record 'x wrapped_line =
  line_text :: string
  line_x :: 'x

text \<open>
  The \<^verbatim>\<open>for\<close> loop of \<^verbatim>\<open>wrapText\<close> over \<^verbatim>\<open>words[1..]\<close>. The canvas context
  enters only through \<^verbatim>\<open>ctx.measureText(s).width\<close>, the parameter \<open>measureText\<close>; widths
  are of any linearly ordered type. \<open>currentLine\<close> and \<open>lines\<close> are the loop's two
  variables.
\<close>

fun wrap_loop ::
  "(string \<Rightarrow> 'w::linorder) \<Rightarrow> 'w \<Rightarrow> 'x \<Rightarrow> string \<Rightarrow> 'x wrapped_line list \<Rightarrow> string list
     \<Rightarrow> 'x wrapped_line list" where
  "wrap_loop measureText maxWidth x currentLine lines [] =
     lines @ [\<lparr>line_text = currentLine, line_x = x\<rparr>]"
| "wrap_loop measureText maxWidth x currentLine lines (word # rest) =
     (let testLine = currentLine @ '' '' @ word;
          testWidth = measureText testLine
      in if testWidth \<le> maxWidth
         then wrap_loop measureText maxWidth x testLine lines rest
         else wrap_loop measureText maxWidth x word
                (lines @ [\<lparr>line_text = currentLine, line_x = x\<rparr>]) rest)"

text \<open>
  \<^verbatim>\<open>wrapText(ctx, text, maxWidth, x)\<close>. \<^verbatim>\<open>split\<close> never returns an empty array
  (lemma \<open>split_on_not_Nil\<close>), so \<^verbatim>\<open>words[0]\<close> is always a string; the first branch
  of the case below is never taken.
\<close>

definition wrapText ::
  "(string \<Rightarrow> 'w::linorder) \<Rightarrow> string \<Rightarrow> 'w \<Rightarrow> 'x \<Rightarrow> 'x wrapped_line list" where
  "wrapText measureText txt maxWidth x =
     (case split_on CHR '' '' txt of
        [] \<Rightarrow> []
      | word0 # rest \<Rightarrow> wrap_loop measureText maxWidth x word0 [] rest)"

text \<open>
  A context for examples: every character is \<open>cw\<close> wide, so that the width of a string
  is the sum of the widths of its characters.
\<close>

definition fixed_pitch :: "rat \<Rightarrow> string \<Rightarrow> rat" where
  "fixed_pitch cw s = cw * of_nat (length s)"

text \<open>
  \<^verbatim>\<open>s.trim()\<close> removes white space and line terminators from both ends. Of the
  characters that JavaScript counts as such, these are the ones a \<^typ>\<open>char\<close> can be:
  tab, line feed, vertical tab, form feed, carriage return, space and no-break space.
\<close>

definition is_white_space :: "char \<Rightarrow> bool" where
  "is_white_space c \<longleftrightarrow>
     c \<in> {CHR 0x09, CHR 0x0A, CHR 0x0B, CHR 0x0C, CHR 0x0D, CHR 0x20, CHR 0xA0}"

definition trim :: "string \<Rightarrow> string" where
  "trim s = rev (dropWhile is_white_space (rev (dropWhile is_white_space s)))"

text \<open>\<^verbatim>\<open>s.startsWith(p)\<close> and \<^verbatim>\<open>s.substring(n)\<close>.\<close>

definition startsWith :: "string \<Rightarrow> string \<Rightarrow> bool" where
  "startsWith s p \<longleftrightarrow> take (length p) s = p"

definition substring :: "string \<Rightarrow> nat \<Rightarrow> string" where
  "substring s n = drop n s"

section \<open>Server actions: results and effects\<close>

text \<open>
  \<^verbatim>\<open>ActionState<T>\<close>: \<^verbatim>\<open>{ isSuccess: true, message, data }\<close> or
  \<^verbatim>\<open>{ isSuccess: false, message }\<close>.
\<close>

datatype 'a ActionState = ActionSuccess string 'a | ActionFailure string

fun isSuccess :: "'a ActionState \<Rightarrow> bool" where
  "isSuccess (ActionSuccess m d) = True"
| "isSuccess (ActionFailure m) = False"

text \<open>
  What an action does besides returning, in order: \<open>HttpGet u\<close> is a call of
  \<^verbatim>\<open>axios.get(u)\<close>, the other two are lines written to the console (the message
  without the error object). An action returns its \<^typ>\<open>'a ActionState\<close> and this log.
\<close>

datatype effect = HttpGet string | ConsoleWarn string | ConsoleError string

text \<open>A call into a collaborator either returns a value or throws.\<close>

datatype 'a js_result = Returns 'a | Throws

section \<open>Page rendering (\<^verbatim>\<open>src/actions/png/generate-png-actions.ts\<close>)\<close>

subsection \<open>The canvas\<close>

text \<open>
  The canvas library is outside the source. A canvas is modelled by its size, the three
  properties of the 2D context that the action sets, and the drawing calls made on it,
  each call with the properties in force when it was made:
  \<open>FillRect fillStyle x y w h\<close> and \<open>FillText fillStyle font textAlign text x y\<close>.
  Coordinates are JavaScript numbers, that is doubles; they are modelled as rationals.
  The products with \<open>0.05\<close>, \<open>0.125\<close>, \<open>0.175\<close> and \<open>1.2\<close> and the sums of the
  cursor are exact in the model, where the source rounds each of them to a double: after
  two lines the source has the cursor at \<open>714.6999999999999\<close>, the model at \<open>7147 / 10\<close>.
  The difference stays far below one pixel and below the distance of any cursor value
  from the printable height, so it does not change which branch the overflow test takes.
\<close>

datatype draw_call =
    FillRect string rat rat rat rat
  | FillText string string string string rat rat

record canvas =
  canvas_width :: nat
  canvas_height :: nat
  fillStyle :: string
  font :: string
  textAlign :: string
  calls :: "draw_call list"

definition createCanvas :: "nat \<Rightarrow> nat \<Rightarrow> canvas" where
  "createCanvas w h =
     \<lparr>canvas_width = w, canvas_height = h, fillStyle = ''#000000'',
      font = ''10px sans-serif'', textAlign = ''start'', calls = []\<rparr>"

definition fillRect :: "canvas \<Rightarrow> rat \<Rightarrow> rat \<Rightarrow> rat \<Rightarrow> rat \<Rightarrow> canvas" where
  "fillRect ctx x y w h = ctx\<lparr>calls := calls ctx @ [FillRect (fillStyle ctx) x y w h]\<rparr>"

definition fillText :: "canvas \<Rightarrow> string \<Rightarrow> rat \<Rightarrow> rat \<Rightarrow> canvas" where
  "fillText ctx s x y =
     ctx\<lparr>calls := calls ctx @ [FillText (fillStyle ctx) (font ctx) (textAlign ctx) s x y]\<rparr>"








subsection \<open>The layout constants of \<^verbatim>\<open>generatePngAction\<close>\<close>

definition page_width :: nat where "page_width = 2480"
definition page_height :: nat where "page_height = 3508"
definition headlineFontSize :: nat where "headlineFontSize = 72"
definition subheadlineFontSize :: nat where "subheadlineFontSize = 54"
definition bulletFontSize :: nat where "bulletFontSize = 42"
definition margin :: rat where "margin = 60"
definition headlineY :: rat where "headlineY = of_nat page_height * (5 / 100)"
definition subheadlineY :: rat where "subheadlineY = of_nat page_height * (125 / 1000)"
definition bulletStartY :: rat where "bulletStartY = of_nat page_height * (175 / 1000)"
definition maxTextWidth :: rat where "maxTextWidth = of_nat page_width - 2 * margin"
definition lineHeight :: rat where "lineHeight = of_nat bulletFontSize * (12 / 10)"

text \<open>
  The string literal of the bullet symbol in the source is the three code units U+00E2,
  U+20AC, U+00A2: the UTF-8 bytes \<open>E2 80 A2\<close> of U+2022 read as Windows-1252. The
  second one does not fit a \<^typ>\<open>char\<close>; the model writes for it the byte \<open>80\<close> that it
  stands for, and so has the three bytes. The drawing code passes the symbol on and
  never looks into it.
\<close>

definition bullet_symbol :: string where
  "bullet_symbol = [CHR 0xE2, CHR 0x80, CHR 0xA2]"

text \<open>The font strings \<^verbatim>\<open>`${size}px Inter`\<close> for the three sizes.\<close>

definition headlineFont :: string where "headlineFont = ''72px Inter''"
definition subheadlineFont :: string where "subheadlineFont = ''54px Inter''"
definition bulletFont :: string where "bulletFont = ''42px Inter''"

subsection \<open>Parsing the bullets and drawing them\<close>

text \<open>
  \<^verbatim>\<open>summaryText.split("\n").filter(line => line.trim().startsWith("- "))
       .map(line => line.trim().substring(2))\<close>
\<close>

definition bulletPoints :: "string \<Rightarrow> string list" where
  "bulletPoints summaryText =
     map (\<lambda>line. substring (trim line) 2)
       (filter (\<lambda>line. startsWith (trim line) ''- '') (split_on CHR 0x0A summaryText))"

text \<open>The inner loop: one \<^verbatim>\<open>fillText\<close> per wrapped line, the cursor advancing each time.\<close>

fun draw_lines :: "canvas \<Rightarrow> rat \<Rightarrow> rat wrapped_line list \<Rightarrow> canvas \<times> rat" where
  "draw_lines ctx currentY [] = (ctx, currentY)"
| "draw_lines ctx currentY (line # rest) =
     draw_lines (fillText ctx (line_text line) (line_x line) currentY)
       (currentY + lineHeight) rest"

text \<open>
  The outer loop over the bullets. \<open>measureText fnt s\<close> is the width of \<open>s\<close> in the font
  \<open>fnt\<close>; \<^verbatim>\<open>wrapText\<close> measures with the font the context has at that moment.
\<close>

fun draw_points ::
  "(string \<Rightarrow> string \<Rightarrow> rat) \<Rightarrow> canvas \<Rightarrow> rat \<Rightarrow> string list \<Rightarrow> canvas \<times> rat" where
  "draw_points measureText ctx currentY [] = (ctx, currentY)"
| "draw_points measureText ctx currentY (point # rest) =
     (let ctx1 = fillText ctx bullet_symbol margin currentY;
          wrappedLines = wrapText (measureText (font ctx1)) point (maxTextWidth - margin) (margin + 30);
          (ctx2, y2) = draw_lines ctx1 currentY wrappedLines
      in draw_points measureText ctx2 (y2 + lineHeight * (5 / 10)) rest)"

text \<open>
  Everything from the white background to the overflow check: the canvas after the last
  drawing call and the cursor after the last bullet.
\<close>

definition draw_page ::
  "(string \<Rightarrow> string \<Rightarrow> rat) \<Rightarrow> canvas \<Rightarrow> string \<Rightarrow> string \<Rightarrow> string \<Rightarrow> canvas \<times> rat" where
  "draw_page measureText ctx0 headline subheadline summaryText =
     (let ctx1 = fillRect (ctx0\<lparr>fillStyle := ''#FFFFFF''\<rparr>) 0 0 (of_nat page_width) (of_nat page_height);
          ctx2 = fillText (ctx1\<lparr>fillStyle := ''#000000'', font := headlineFont, textAlign := ''center''\<rparr>)
                   headline (of_nat page_width / 2) headlineY;
          ctx3 = fillText (ctx2\<lparr>font := subheadlineFont\<rparr>) subheadline (of_nat page_width / 2) subheadlineY
      in draw_points measureText (ctx3\<lparr>font := bulletFont, textAlign := ''left''\<rparr>) bulletStartY
           (bulletPoints summaryText))"

subsection \<open>\<^verbatim>\<open>generatePngAction\<close>\<close>

text \<open>The columns of a summary row that the action reads.\<close>

record summary =
  summary_userId :: string
  summaryText :: string


subsection \<open>What a log of drawing calls shows, and the bullet convention in words\<close>

text \<open>
  Reading the bullets back from the drawing calls: a text drawn at the left margin is a
  bullet symbol and opens a bullet; the texts drawn at the indent after it, up to the
  next symbol, are the lines of that bullet; the bullet is its lines joined by spaces.
  \<open>bullet_step\<close> reads one call; its state is the bullets already complete and the lines
  of the open one.
\<close>

fun close_bullet :: "string list option \<Rightarrow> string list list" where
  "close_bullet None = []"
| "close_bullet (Some ls) = [ls]"

fun bullet_step ::
  "draw_call \<Rightarrow> string list list \<times> string list option \<Rightarrow> string list list \<times> string list option" where
  "bullet_step (FillRect style x y w h) st = st"
| "bullet_step (FillText style fnt align s x y) (bs, cur) =
     (if x = margin then (bs @ close_bullet cur, Some [])
      else if x = margin + 30 then (bs, map_option (\<lambda>ls. ls @ [s]) cur)
      else (bs, cur))"

definition finish_bullets :: "string list list \<times> string list option \<Rightarrow> string list list" where
  "finish_bullets st = fst st @ close_bullet (snd st)"

definition drawn_bullets :: "draw_call list \<Rightarrow> string list" where
  "drawn_bullets cs = map (join_with '' '') (finish_bullets (fold bullet_step cs ([], None)))"

text \<open>
  The bullet convention in words: a line is a bullet when its trimmed form starts with
  a dash and a space; the bullet is what follows these two characters.
\<close>

definition strip_marker :: "string \<Rightarrow> string option" where
  "strip_marker l =
     (case trim l of
        a # b # rest \<Rightarrow> if a = CHR ''-'' \<and> b = CHR '' '' then Some rest else None
      | _ \<Rightarrow> None)"

definition marked_bullets :: "string \<Rightarrow> string list" where
  "marked_bullets s = List.map_filter strip_marker (split_on CHR 0x0A s)"

subsection \<open>The page in words\<close>








section \<open>Article extraction (\<^verbatim>\<open>src/actions/ai/fetch-article-actions.ts\<close>)\<close>

subsection \<open>The parsed document and the selections on it\<close>

text \<open>
  The HTML parser and the selector engine are outside the source. A parsed document is
  the list of the children of its root; a node is an element, with its tag name and
  children, or a text.
\<close>

datatype node = Element string "node list" | TextNode string

fun tag_in :: "string list \<Rightarrow> node \<Rightarrow> bool" where
  "tag_in sel (Element t cs) \<longleftrightarrow> t \<in> set sel"
| "tag_in sel (TextNode s) \<longleftrightarrow> False"

text \<open>\<^verbatim>\<open>$(el).text()\<close>: the texts below an element, in document order.\<close>

fun textContent :: "node \<Rightarrow> string" where
  "textContent (TextNode s) = s"
| "textContent (Element t cs) = concat (map textContent cs)"

text \<open>\<^verbatim>\<open>$(sel).remove()\<close>: every element with one of the tags leaves the tree.\<close>

fun remove_in :: "string list \<Rightarrow> node \<Rightarrow> node" where
  "remove_in sel (TextNode s) = TextNode s"
| "remove_in sel (Element t cs) =
     Element t (map (remove_in sel) (filter (\<lambda>c. \<not> tag_in sel c) cs))"

definition remove_elements :: "string list \<Rightarrow> node list \<Rightarrow> node list" where
  "remove_elements sel doc = map (remove_in sel) (filter (\<lambda>c. \<not> tag_in sel c) doc)"

text \<open>
  The elements of a tree in document order, each with its ancestors, the nearest
  first. A selection is a list of such elements.
\<close>

fun elements :: "node list \<Rightarrow> node \<Rightarrow> (node list \<times> node) list" where
  "elements anc (TextNode s) = []"
| "elements anc (Element t cs) =
     (anc, Element t cs) # concat (map (elements (Element t cs # anc)) cs)"

definition doc_elements :: "node list \<Rightarrow> (node list \<times> node) list" where
  "doc_elements doc = concat (map (elements []) doc)"

text \<open>
  \<^verbatim>\<open>$("a, b")\<close>: the elements of the document with one of the tags, in document order.
\<close>

definition select :: "string list \<Rightarrow> node list \<Rightarrow> (node list \<times> node) list" where
  "select sel doc = filter (\<lambda>e. tag_in sel (snd e)) (doc_elements doc)"

text \<open>
  \<^verbatim>\<open>selection.find("a, b")\<close>: the elements with one of the tags that are below an
  element of the selection (one of their ancestors is in it), each once, in document
  order.
\<close>

definition find_in :: "(node list \<times> node) list \<Rightarrow> string list \<Rightarrow> node list \<Rightarrow> (node list \<times> node) list" where
  "find_in selection sel doc =
     filter (\<lambda>e. tag_in sel (snd e) \<and> list_ex (\<lambda>a. a \<in> set (map snd selection)) (fst e))
       (doc_elements doc)"

subsection \<open>Lines 67 to 84: from the loaded document to \<^verbatim>\<open>articleText\<close>\<close>

definition articleText :: "node list \<Rightarrow> string" where
  "articleText loaded =
     (let doc = remove_elements
                  [''script'', ''style'', ''iframe'', ''noscript'', ''nav'', ''footer'', ''header''] loaded;
          articleContent =
            (if length (select [''article''] doc) > 0 then select [''article''] doc
             else if length (select [''main''] doc) > 0 then select [''main''] doc
             else select [''body''] doc);
          textElements =
            find_in articleContent [''p'', ''h1'', ''h2'', ''h3'', ''h4'', ''h5'', ''h6''] doc
      in join_with [CHR 0x0A]
           (filter (\<lambda>t. length t > 0) (map (\<lambda>element. trim (textContent (snd element))) textElements)))"

text \<open>\<^verbatim>\<open>s.replace(/\n{2,}/g, "\n")\<close>: of a run of line feeds, one stays.\<close>

fun collapse_newlines :: "string \<Rightarrow> string" where
  "collapse_newlines (a # b # s) =
     (if a = CHR 0x0A \<and> b = CHR 0x0A then collapse_newlines (b # s)
      else a # collapse_newlines (b # s))"
| "collapse_newlines s = s"

subsection \<open>\<^verbatim>\<open>fetchArticleAction\<close>\<close>

text \<open>
  What \<^verbatim>\<open>axios.get\<close> does: it resolves with a status and a body, or it rejects with an
  error that carries the response, with an error that carries only the request (no
  response was received), or with another error.
\<close>

datatype axios_outcome =
    Resolved nat string
  | RejectedWithResponse nat
  | RejectedNoResponse
  | RejectedOther

text \<open>
  What the network does with a request, and what \<^verbatim>\<open>axios.get\<close> with its default
  \<^verbatim>\<open>validateStatus\<close> makes of it: a status from 200 to 299 resolves, any other status
  rejects with the response.
\<close>

datatype http_exchange = HttpResponse nat string | NoResponse

fun axios_default :: "http_exchange \<Rightarrow> axios_outcome" where
  "axios_default (HttpResponse status body) =
     (if 200 \<le> status \<and> status < 300 then Resolved status body else RejectedWithResponse status)"
| "axios_default NoResponse = RejectedNoResponse"

text \<open>A status in a template literal: its decimal digits.\<close>

fun decimal :: "nat \<Rightarrow> string" where
  "decimal n =
     (if n < 10 then [char_of (48 + n)] else decimal (n div 10) @ [char_of (48 + n mod 10)])"

record ArticleData =
  article_url :: string
  article_text :: string

text \<open>
  The kinds of failure of the pipeline, and the message by which the action reports
  each kind.
\<close>

datatype failure =
    InvalidInput | NetworkError | FetchFailed nat | AccessDenied | NotFound
  | InsufficientContent | UnexpectedError

fun failure_message :: "failure \<Rightarrow> string" where
  "failure_message InvalidInput = ''Please enter a valid URL (e.g., https://example.com)''"
| "failure_message NetworkError = ''Network error: Could not reach the server.''"
| "failure_message (FetchFailed status) = ''Failed to fetch article: HTTP Status '' @ decimal status"
| "failure_message AccessDenied =
     ''Article unavailable: Access denied (possibly behind a paywall).''"
| "failure_message NotFound = ''Article not found (404).''"
| "failure_message InsufficientContent =
     ''Could not find substantial article content. This might not be an article page or is behind a paywall.''"
| "failure_message UnexpectedError = ''An unexpected error occurred while fetching the article.''"

text \<open>
  The parameters are the built-ins and libraries: \<open>URL_parses u\<close> says whether
  \<^verbatim>\<open>new URL(u)\<close> returns rather than throws (\<open>new_URL\<close> below models it),
  \<open>axios_get\<close> is the request, \<open>load\<close> is \<^verbatim>\<open>cheerio.load\<close>, which returns the parsed
  document or throws (on response data that is not a text); what is thrown inside the
  \<^verbatim>\<open>try\<close> block ends in its last \<^verbatim>\<open>return\<close>.
\<close>

definition fetchArticleAction ::
  "(string \<Rightarrow> bool) \<Rightarrow> (string \<Rightarrow> axios_outcome) \<Rightarrow> (string \<Rightarrow> node list js_result)
     \<Rightarrow> string \<Rightarrow> ArticleData ActionState \<times> effect list" where
  "fetchArticleAction URL_parses axios_get load url =
     (if \<not> URL_parses url
      then (ActionFailure ''Please enter a valid URL (e.g., https://example.com)'', [])
      else
        (case axios_get url of
           Resolved status body \<Rightarrow>
             if status \<noteq> 200
             then (ActionFailure (''Failed to fetch article: HTTP Status '' @ decimal status),
                   [HttpGet url])
             else
               (case load body of
                  Throws \<Rightarrow>
                    (ActionFailure ''An unexpected error occurred while fetching the article.'',
                     [HttpGet url, ConsoleError ''Error fetching article:''])
                | Returns loaded \<Rightarrow>
                    (let txt = articleText loaded
                     in if length txt < 50
                        then (ActionFailure
                                ''Could not find substantial article content. This might not be an article page or is behind a paywall.'',
                              [HttpGet url])
                        else (ActionSuccess ''Article fetched successfully''
                                \<lparr>article_url = url, article_text = trim (collapse_newlines txt)\<rparr>,
                              [HttpGet url])))
         | RejectedWithResponse status \<Rightarrow>
             if status = 403 \<or> status = 401
             then (ActionFailure ''Article unavailable: Access denied (possibly behind a paywall).'',
                   [HttpGet url])
             else if status = 404
             then (ActionFailure ''Article not found (404).'', [HttpGet url])
             else (ActionFailure (''Failed to fetch article: HTTP Status '' @ decimal status),
                   [HttpGet url])
         | RejectedNoResponse \<Rightarrow>
             (ActionFailure ''Network error: Could not reach the server.'', [HttpGet url])
         | RejectedOther \<Rightarrow>
             (ActionFailure ''An unexpected error occurred while fetching the article.'',
              [HttpGet url, ConsoleError ''Error fetching article:''])))"

subsection \<open>The URL constructor\<close>

text \<open>
  \<^verbatim>\<open>new URL(u)\<close> with no base, after the URL Standard, as far as the scheme and the
  presence of an authority decide whether it throws. The input loses the control
  characters and spaces at its ends and every tab, line feed and carriage return. It
  has a scheme when it begins with a letter, goes on with letters, digits, \<open>+\<close>, \<open>-\<close>
  and \<open>.\<close>, and then has a colon; the scheme is read in lower case.
\<close>

definition is_alpha :: "char \<Rightarrow> bool" where
  "is_alpha c \<longleftrightarrow> (65 \<le> (of_char c :: nat) \<and> (of_char c :: nat) \<le> 90)
                 \<or> (97 \<le> (of_char c :: nat) \<and> (of_char c :: nat) \<le> 122)"

definition is_scheme_char :: "char \<Rightarrow> bool" where
  "is_scheme_char c \<longleftrightarrow> is_alpha c \<or> (48 \<le> (of_char c :: nat) \<and> (of_char c :: nat) \<le> 57)
                       \<or> c = CHR ''+'' \<or> c = CHR ''-'' \<or> c = CHR ''.''"

definition to_lower :: "char \<Rightarrow> char" where
  "to_lower c = (if 65 \<le> (of_char c :: nat) \<and> (of_char c :: nat) \<le> 90
                 then char_of ((of_char c :: nat) + 32) else c)"

definition c0_or_space :: "char \<Rightarrow> bool" where
  "c0_or_space c \<longleftrightarrow> (of_char c :: nat) \<le> 32"

definition url_input :: "string \<Rightarrow> string" where
  "url_input u =
     filter (\<lambda>c. c \<noteq> CHR 0x09 \<and> c \<noteq> CHR 0x0A \<and> c \<noteq> CHR 0x0D)
       (rev (dropWhile c0_or_space (rev (dropWhile c0_or_space u))))"

definition scheme_and_rest :: "string \<Rightarrow> (string \<times> string) option" where
  "scheme_and_rest inp =
     (case inp of
        [] \<Rightarrow> None
      | c # cs \<Rightarrow>
          if \<not> is_alpha c then None
          else (case dropWhile is_scheme_char inp of
                  [] \<Rightarrow> None
                | d # r \<Rightarrow>
                    if d = CHR '':'' then Some (map to_lower (takeWhile is_scheme_char inp), r)
                    else None))"

text \<open>
  What follows the scheme decides the rest. The schemes \<open>ftp\<close>, \<open>http\<close>, \<open>https\<close>, \<open>ws\<close>
  and \<open>wss\<close> are special: after any number of slashes and backslashes comes the
  authority, up to the next slash, backslash, \<open>?\<close> or \<open>#\<close>, and an empty one is a
  failure. With \<open>file\<close> there is a host only after two slashes or backslashes, it may
  be empty, and a drive letter in its place is taken as path. With any other scheme
  there is an authority only after \<open>//\<close>, and it may be empty; otherwise what follows
  the colon is a path, which never fails: the URL has a scheme and no host.
\<close>

datatype url_shape = NoScheme | HostMissing | NoAuthority | Authority string string

definition is_slash :: "char \<Rightarrow> bool" where
  "is_slash c \<longleftrightarrow> c = CHR ''/'' \<or> c = CHR 0x5C"

definition is_drive_letter :: "string \<Rightarrow> bool" where
  "is_drive_letter h \<longleftrightarrow>
     (case h of [a, b] \<Rightarrow> is_alpha a \<and> (b = CHR '':'' \<or> b = CHR ''|'') | _ \<Rightarrow> False)"

definition url_shape :: "string \<Rightarrow> url_shape" where
  "url_shape u =
     (case scheme_and_rest (url_input u) of
        None \<Rightarrow> NoScheme
      | Some (scheme, r) \<Rightarrow>
          if scheme = ''file'' then
            (case r of
               a # b # r2 \<Rightarrow>
                 if is_slash a \<and> is_slash b then
                   (let host = takeWhile (\<lambda>c. \<not> is_slash c \<and> c \<noteq> CHR ''?'' \<and> c \<noteq> CHR ''#'') r2
                    in if host = [] \<or> is_drive_letter host then NoAuthority
                       else Authority scheme host)
                 else NoAuthority
             | _ \<Rightarrow> NoAuthority)
          else if scheme \<in> {''ftp'', ''http'', ''https'', ''ws'', ''wss''} then
            (let authority = takeWhile (\<lambda>c. \<not> is_slash c \<and> c \<noteq> CHR ''?'' \<and> c \<noteq> CHR ''#'')
                               (dropWhile is_slash r)
             in if authority = [] then HostMissing else Authority scheme authority)
          else
            (case r of
               a # b # r2 \<Rightarrow>
                 if a = CHR ''/'' \<and> b = CHR ''/'' then
                   (let authority = takeWhile (\<lambda>c. c \<noteq> CHR ''/'' \<and> c \<noteq> CHR ''?'' \<and> c \<noteq> CHR ''#'') r2
                    in if authority = [] then NoAuthority else Authority scheme authority)
                 else NoAuthority
             | _ \<Rightarrow> NoAuthority))"

text \<open>
  The parsers of what a non-empty authority holds (credentials, host, port) are not
  modelled: \<open>authority_ok scheme authority\<close> says whether they accept it.
\<close>

definition new_URL :: "(string \<Rightarrow> string \<Rightarrow> bool) \<Rightarrow> string \<Rightarrow> bool" where
  "new_URL authority_ok u =
     (case url_shape u of
        NoScheme \<Rightarrow> False
      | HostMissing \<Rightarrow> False
      | NoAuthority \<Rightarrow> True
      | Authority scheme authority \<Rightarrow> authority_ok scheme authority)"

subsection \<open>Root selection and text collection in words\<close>





section \<open>Properties of the string primitives\<close>

lemma split_on_not_Nil: "split_on c s \<noteq> []"
  by (induction s) (auto split: list.splits)

lemma split_on_no_sep: "w \<in> set (split_on c s) \<Longrightarrow> c \<notin> set w"
  by (induction s arbitrary: w) (auto split: if_splits list.splits)

lemma split_on_single: "c \<notin> set w \<Longrightarrow> split_on c w = [w]"
  by (induction w) auto

lemma split_on_append: "split_on c (a @ c # b) = split_on c a @ split_on c b"
  by (induction a) (auto split: list.splits simp: split_on_not_Nil)

lemma join_split_on: "join_with [c] (split_on c s) = s"
proof (induction s)
  case Nil
  show ?case by simp
next
  case (Cons a s)
  show ?case
  proof (cases "a = c")
    case True
    obtain w ws where sp: "split_on c s = w # ws"
      using split_on_not_Nil [of c s] by (cases "split_on c s") auto
    with Cons True show ?thesis by simp
  next
    case False
    obtain w ws where sp: "split_on c s = w # ws"
      using split_on_not_Nil [of c s] by (cases "split_on c s") auto
    with Cons False show ?thesis by (cases ws) auto
  qed
qed

text \<open>Joining with a space is putting a space before every word but the first.\<close>

lemma join_with_Cons: "join_with [c] (w # ws) = w @ concat (map ((#) c) ws)"
  by (induction ws arbitrary: w) auto

section \<open>Properties of the wrap loop\<close>

lemma wrap_loop_prefix:
  "\<exists>more. wrap_loop measureText maxWidth x cur lines ws = lines @ more \<and> more \<noteq> []"
proof (induction ws arbitrary: cur lines)
  case Nil
  show ?case by simp
next
  case (Cons w ws)
  show ?case
  proof (cases "measureText (cur @ '' '' @ w) \<le> maxWidth")
    case True
    with Cons [of "cur @ '' '' @ w" lines] show ?thesis by simp
  next
    case False
    from Cons [of w "lines @ [\<lparr>line_text = cur, line_x = x\<rparr>]"]
    obtain more where
      "wrap_loop measureText maxWidth x w (lines @ [\<lparr>line_text = cur, line_x = x\<rparr>]) ws
         = (lines @ [\<lparr>line_text = cur, line_x = x\<rparr>]) @ more"
      by blast
    with False show ?thesis by simp
  qed
qed

lemma wrap_loop_x:
  "\<forall>l \<in> set lines. line_x l = x \<Longrightarrow>
   \<forall>l \<in> set (wrap_loop measureText maxWidth x cur lines ws). line_x l = x"
proof (induction ws arbitrary: cur lines)
  case Nil
  then show ?case by simp
next
  case (Cons w ws)
  show ?case
  proof (cases "measureText (cur @ '' '' @ w) \<le> maxWidth")
    case True
    with Cons.IH [OF Cons.prems, of "cur @ '' '' @ w"] show ?thesis by simp
  next
    case False
    have "\<forall>l \<in> set (lines @ [\<lparr>line_text = cur, line_x = x\<rparr>]). line_x l = x"
      using Cons.prems by simp
    from Cons.IH [OF this, of w] False show ?thesis by simp
  qed
qed

lemma wrap_loop_words:
  "\<forall>w \<in> set ws. CHR '' '' \<notin> set w \<Longrightarrow>
   concat (map (\<lambda>l. split_on CHR '' '' (line_text l)) (wrap_loop measureText maxWidth x cur lines ws))
     = concat (map (\<lambda>l. split_on CHR '' '' (line_text l)) lines) @ split_on CHR '' '' cur @ ws"
proof (induction ws arbitrary: cur lines)
  case Nil
  show ?case by simp
next
  case (Cons w ws)
  then have w: "split_on CHR '' '' w = [w]" and ws: "\<forall>v \<in> set ws. CHR '' '' \<notin> set v"
    by (simp_all add: split_on_single)
  have test: "split_on CHR '' '' (cur @ '' '' @ w) = split_on CHR '' '' cur @ [w]"
    using split_on_append [of "CHR '' ''" cur w] w by simp
  show ?case
  proof (cases "measureText (cur @ '' '' @ w) \<le> maxWidth")
    case True
    with Cons.IH [OF ws, of "cur @ '' '' @ w" lines] test show ?thesis by simp
  next
    case False
    with Cons.IH [OF ws, of w "lines @ [\<lparr>line_text = cur, line_x = x\<rparr>]"] w
    show ?thesis by simp
  qed
qed

lemma wrap_loop_fits:
  "\<forall>l \<in> set lines. measureText (line_text l) \<le> maxWidth \<or> line_text l \<in> W \<Longrightarrow>
   measureText cur \<le> maxWidth \<or> cur \<in> W \<Longrightarrow> set ws \<subseteq> W \<Longrightarrow>
   \<forall>l \<in> set (wrap_loop measureText maxWidth x cur lines ws).
      measureText (line_text l) \<le> maxWidth \<or> line_text l \<in> W"
proof (induction ws arbitrary: cur lines)
  case Nil
  then show ?case by auto
next
  case (Cons w ws)
  show ?case
  proof (cases "measureText (cur @ '' '' @ w) \<le> maxWidth")
    case True
    have "\<forall>l \<in> set (wrap_loop measureText maxWidth x (cur @ '' '' @ w) lines ws).
            measureText (line_text l) \<le> maxWidth \<or> line_text l \<in> W"
      using Cons.prems True by (intro Cons.IH) auto
    with True show ?thesis by simp
  next
    case False
    have "\<forall>l \<in> set (wrap_loop measureText maxWidth x w (lines @ [\<lparr>line_text = cur, line_x = x\<rparr>]) ws).
            measureText (line_text l) \<le> maxWidth \<or> line_text l \<in> W"
      using Cons.prems by (intro Cons.IH) auto
    with False show ?thesis by simp
  qed
qed

lemma wrap_loop_one_line:
  "\<forall>k \<le> length ws. measureText (cur @ concat (map ((#) CHR '' '') (take k ws))) \<le> maxWidth \<Longrightarrow>
   wrap_loop measureText maxWidth x cur lines ws
     = lines @ [\<lparr>line_text = cur @ concat (map ((#) CHR '' '') ws), line_x = x\<rparr>]"
proof (induction ws arbitrary: cur)
  case Nil
  show ?case by simp
next
  case (Cons w ws)
  have fit: "measureText (cur @ '' '' @ w) \<le> maxWidth"
    using Cons.prems [rule_format, of 1] by simp
  have "\<forall>k \<le> length ws.
          measureText ((cur @ '' '' @ w) @ concat (map ((#) CHR '' '') (take k ws))) \<le> maxWidth"
  proof (intro allI impI)
    fix k assume "k \<le> length ws"
    then show "measureText ((cur @ '' '' @ w) @ concat (map ((#) CHR '' '') (take k ws))) \<le> maxWidth"
      using Cons.prems [rule_format, of "Suc k"] by simp
  qed
  from Cons.IH [OF this] fit show ?case by simp
qed

section \<open>Claims about \<^verbatim>\<open>wrapText\<close>\<close>

text \<open>
  C1, as amended. For every bullet string that requires wrapping (its whole measured
  width exceeds \<open>maxWidth\<close>) and every text-measurement function, every line produced
  by \<^verbatim>\<open>wrapText\<close> either has measured width at most \<open>maxWidth\<close> or is a single word
  of the input: the loop measures a line only when it appends a word to it, and a
  word never is broken, so a word that alone is wider than \<open>maxWidth\<close> gets a line of
  its own that is too wide.
\<close>

theorem wrapText_line_fits_or_single_word:
  assumes "maxWidth < measureText txt"
  shows "\<forall>l \<in> set (wrapText measureText txt maxWidth x).
           measureText (line_text l) \<le> maxWidth
           \<or> line_text l \<in> set (split_on CHR '' '' txt)"
proof -
  obtain word0 rest where sp: "split_on CHR '' '' txt = word0 # rest"
    using split_on_not_Nil [of "CHR '' ''" "txt"] by (cases "split_on CHR '' '' txt") auto
  have "\<forall>l \<in> set (wrap_loop measureText maxWidth x word0 [] rest).
          measureText (line_text l) \<le> maxWidth \<or> line_text l \<in> set (word0 # rest)"
    by (rule wrap_loop_fits) auto
  with sp show ?thesis by (simp add: wrapText_def)
qed

theorem wrapText_line_fits_or_single_word_witness:
  "(4::rat) < fixed_pitch 1 ''aa bbbbbb cc d'' \<and>
   wrapText (fixed_pitch 1) ''aa bbbbbb cc d'' 4 (90::rat) =
     [\<lparr>line_text = ''aa'', line_x = 90\<rparr>, \<lparr>line_text = ''bbbbbb'', line_x = 90\<rparr>,
      \<lparr>line_text = ''cc d'', line_x = 90\<rparr>] \<and>
   list_all (\<lambda>l. fixed_pitch 1 (line_text l) \<le> 4
                  \<or> line_text l \<in> set (split_on CHR '' '' ''aa bbbbbb cc d''))
     (wrapText (fixed_pitch 1) ''aa bbbbbb cc d'' 4 (90::rat))"
proof -
  have h: "(4::rat) < fixed_pitch 1 ''aa bbbbbb cc d''"
    by (simp add: fixed_pitch_def)
  have "wrapText (fixed_pitch 1) ''aa bbbbbb cc d'' 4 (90::rat) =
     [\<lparr>line_text = ''aa'', line_x = 90\<rparr>, \<lparr>line_text = ''bbbbbb'', line_x = 90\<rparr>,
      \<lparr>line_text = ''cc d'', line_x = 90\<rparr>]"
    by (simp add: wrapText_def fixed_pitch_def)
  with h wrapText_line_fits_or_single_word [of 4 "fixed_pitch 1" "''aa bbbbbb cc d''" "90::rat"]
  show ?thesis unfolding list_all_iff by blast
qed

text \<open>
  C1 as stated fails: with every character one unit wide and \<open>maxWidth = 4\<close>, the
  string \<open>aa bbbbbb\<close> (width 9) requires wrapping, and its second line \<open>bbbbbb\<close> is
  6 wide.
\<close>

theorem wrapText_line_too_wide_counterexample:
  "(4::rat) < fixed_pitch 1 ''aa bbbbbb'' \<and>
   wrapText (fixed_pitch 1) ''aa bbbbbb'' 4 (90::rat) =
     [\<lparr>line_text = ''aa'', line_x = 90\<rparr>, \<lparr>line_text = ''bbbbbb'', line_x = 90\<rparr>] \<and>
   \<not> fixed_pitch 1 ''bbbbbb'' \<le> 4"
  by (simp add: wrapText_def fixed_pitch_def)

text \<open>
  C2. For every bullet string, the words of the lines that \<^verbatim>\<open>wrapText\<close> returns,
  concatenated in order, are exactly the words of the input (its pieces between
  spaces, as \<^verbatim>\<open>text.split(" ")\<close> gives them): no word is lost, duplicated or
  reordered.
\<close>

theorem wrapText_preserves_words:
  "concat (map (\<lambda>l. split_on CHR '' '' (line_text l)) (wrapText measureText txt maxWidth x))
     = split_on CHR '' '' txt"
proof -
  obtain word0 rest where sp: "split_on CHR '' '' txt = word0 # rest"
    using split_on_not_Nil [of "CHR '' ''" "txt"] by (cases "split_on CHR '' '' txt") auto
  have nosp: "\<forall>w \<in> set (word0 # rest). CHR '' '' \<notin> set w"
    using split_on_no_sep [of _ "CHR '' ''" "txt"] sp by metis
  then have "split_on CHR '' '' word0 = [word0]" and "\<forall>w \<in> set rest. CHR '' '' \<notin> set w"
    by (simp_all add: split_on_single)
  then have "concat (map (\<lambda>l. split_on CHR '' '' (line_text l))
                 (wrap_loop measureText maxWidth x word0 [] rest)) = word0 # rest"
    by (simp add: wrap_loop_words)
  with sp show ?thesis by (simp add: wrapText_def)
qed

text \<open>
  C7. For every bullet string whose whole rendered width is at most \<open>maxWidth\<close>,
  \<^verbatim>\<open>wrapText\<close> returns exactly one line, whose text is the input string. The width is
  measured by the canvas, which is outside the source; what is used of it is that a
  beginning of a text is not wider than the whole text.
\<close>

theorem wrapText_short_text_one_line:
  assumes fits: "measureText txt \<le> maxWidth"
    and mono: "\<forall>p. prefix p txt \<longrightarrow> measureText p \<le> measureText txt"
  shows "wrapText measureText txt maxWidth x = [\<lparr>line_text = txt, line_x = x\<rparr>]"
proof -
  obtain word0 rest where sp: "split_on CHR '' '' txt = word0 # rest"
    using split_on_not_Nil [of "CHR '' ''" "txt"] by (cases "split_on CHR '' '' txt") auto
  have whole: "txt = word0 @ concat (map ((#) CHR '' '') rest)"
    using join_split_on [of "CHR '' ''" "txt"] sp by (simp add: join_with_Cons)
  have "\<forall>k \<le> length rest.
          measureText (word0 @ concat (map ((#) CHR '' '') (take k rest))) \<le> maxWidth"
  proof (intro allI impI)
    fix k assume "k \<le> length rest"
    have "txt = (word0 @ concat (map ((#) CHR '' '') (take k rest)))
                  @ concat (map ((#) CHR '' '') (drop k rest))"
      using whole append_take_drop_id [of k rest]
      by (metis append.assoc concat_append map_append)
    then have "prefix (word0 @ concat (map ((#) CHR '' '') (take k rest))) txt"
      by (metis prefixI)
    with mono fits
    show "measureText (word0 @ concat (map ((#) CHR '' '') (take k rest))) \<le> maxWidth"
      by force
  qed
  then have "wrap_loop measureText maxWidth x word0 [] rest
               = [\<lparr>line_text = word0 @ concat (map ((#) CHR '' '') rest), line_x = x\<rparr>]"
    using wrap_loop_one_line [of rest measureText word0 maxWidth x "[]"] by simp
  with sp whole show ?thesis by (simp add: wrapText_def)
qed

theorem wrapText_short_text_one_line_witness:
  "fixed_pitch 20 ''Rates rose again'' \<le> 2300 \<and>
   wrapText (fixed_pitch 20) ''Rates rose again'' 2300 (90::rat)
     = [\<lparr>line_text = ''Rates rose again'', line_x = 90\<rparr>]"
proof -
  have fits: "fixed_pitch 20 ''Rates rose again'' \<le> 2300"
    by (simp add: fixed_pitch_def)
  have mono: "\<forall>p. prefix p ''Rates rose again''
                \<longrightarrow> fixed_pitch 20 p \<le> fixed_pitch 20 ''Rates rose again''"
  proof (intro allI impI)
    fix p :: string assume "prefix p ''Rates rose again''"
    then have "length p \<le> length ''Rates rose again''" by (rule prefix_length_le)
    then show "fixed_pitch 20 p \<le> fixed_pitch 20 ''Rates rose again''"
      unfolding fixed_pitch_def by (simp only: mult_le_cancel_left_pos of_nat_le_iff)
  qed
  from wrapText_short_text_one_line [OF fits mono, of "90::rat"] fits
  show ?thesis by blast
qed

section \<open>Properties of the drawing loops\<close>

lemma fillText_props:
  "font (fillText ctx s x y) = font ctx"
  "canvas_width (fillText ctx s x y) = canvas_width ctx"
  "canvas_height (fillText ctx s x y) = canvas_height ctx"
  "calls (fillText ctx s x y)
     = calls ctx @ [FillText (fillStyle ctx) (font ctx) (textAlign ctx) s x y]"
  by (simp_all add: fillText_def)


lemma draw_lines_props:
  "font (fst (draw_lines ctx y ls)) = font ctx"
  "canvas_width (fst (draw_lines ctx y ls)) = canvas_width ctx"
  "canvas_height (fst (draw_lines ctx y ls)) = canvas_height ctx"
  by (induction ls arbitrary: ctx y) (simp_all add: fillText_props)

lemma draw_lines_bullets:
  "\<forall>l \<in> set ls. line_x l = margin + 30 \<Longrightarrow>
   fold bullet_step (calls (fst (draw_lines ctx y ls))) st
     = (fst (fold bullet_step (calls ctx) st),
        map_option (\<lambda>g. g @ map line_text ls) (snd (fold bullet_step (calls ctx) st)))"
proof (induction ls arbitrary: ctx y)
  case Nil
  show ?case by (simp add: option.map_ident)
next
  case (Cons l ls)
  have x: "line_x l = margin + 30" and rest: "\<forall>l \<in> set ls. line_x l = margin + 30"
    using Cons.prems by simp_all
  obtain bs cur where st: "fold bullet_step (calls ctx) st = (bs, cur)"
    by (cases "fold bullet_step (calls ctx) st")
  have "fold bullet_step (calls (fillText ctx (line_text l) (line_x l) y)) st
          = (bs, map_option (\<lambda>g. g @ [line_text l]) cur)"
    using st x by (simp add: fillText_props margin_def)
  with Cons.IH [OF rest, of "fillText ctx (line_text l) (line_x l) y" "y + lineHeight"] st
  show ?case by (simp add: option.map_comp comp_def)
qed

lemma wrapText_x: "\<forall>l \<in> set (wrapText m s mw x). line_x l = x"
proof -
  have "\<And>w ws. \<forall>l \<in> set (wrap_loop m mw x w [] ws). line_x l = x"
    by (rule wrap_loop_x) simp
  then show ?thesis unfolding wrapText_def by (cases "split_on CHR '' '' s") simp_all
qed

lemma wrap_loop_join:
  "\<exists>more. map line_text (wrap_loop m mw x cur lines ws) = map line_text lines @ more
      \<and> more \<noteq> [] \<and> join_with '' '' more = cur @ concat (map ((#) CHR '' '') ws)"
proof (induction ws arbitrary: cur lines)
  case Nil
  show ?case by simp
next
  case (Cons w ws)
  show ?case
  proof (cases "m (cur @ '' '' @ w) \<le> mw")
    case True
    with Cons [of "cur @ '' '' @ w" lines] show ?thesis by simp
  next
    case False
    from Cons [of w "lines @ [\<lparr>line_text = cur, line_x = x\<rparr>]"]
    obtain more where more:
      "map line_text (wrap_loop m mw x w (lines @ [\<lparr>line_text = cur, line_x = x\<rparr>]) ws)
         = map line_text (lines @ [\<lparr>line_text = cur, line_x = x\<rparr>]) @ more"
      "more \<noteq> []" "join_with '' '' more = w @ concat (map ((#) CHR '' '') ws)"
      by blast
    then obtain v vs where "more = v # vs" by (cases more) auto
    with more False show ?thesis
      by (intro exI [of _ "cur # more"]) simp
  qed
qed

lemma wrapText_join: "join_with '' '' (map line_text (wrapText m s mw x)) = s"
proof -
  obtain word0 rest where sp: "split_on CHR '' '' s = word0 # rest"
    using split_on_not_Nil [of "CHR '' ''" s] by (cases "split_on CHR '' '' s") auto
  from wrap_loop_join [of m mw x word0 "[]" rest]
  have "join_with '' '' (map line_text (wrap_loop m mw x word0 [] rest))
          = word0 @ concat (map ((#) CHR '' '') rest)"
    by auto
  also have "\<dots> = s"
    using join_split_on [of "CHR '' ''" s] sp by (simp add: join_with_Cons)
  finally show ?thesis using sp by (simp add: wrapText_def)
qed


lemma draw_points_bullets:
  "finish_bullets (fold bullet_step (calls (fst (draw_points m ctx y ps))) st)
     = finish_bullets (fold bullet_step (calls ctx) st)
       @ map (\<lambda>p. map line_text (wrapText (m (font ctx)) p (maxTextWidth - margin) (margin + 30))) ps"
proof (induction ps arbitrary: ctx y)
  case Nil
  show ?case by simp
next
  case (Cons p ps)
  define ctx1 where "ctx1 = fillText ctx bullet_symbol margin y"
  define wl where "wl = wrapText (m (font ctx1)) p (maxTextWidth - margin) (margin + 30)"
  define ctx2 where "ctx2 = fst (draw_lines ctx1 y wl)"
  define y2 where "y2 = snd (draw_lines ctx1 y wl)"
  have step: "draw_points m ctx y (p # ps) = draw_points m ctx2 (y2 + lineHeight * (5 / 10)) ps"
    by (simp add: Let_def split_beta ctx1_def wl_def ctx2_def y2_def)
  have f1: "font ctx1 = font ctx" by (simp add: ctx1_def fillText_props)
  have f2: "font ctx2 = font ctx" by (simp add: ctx2_def draw_lines_props f1)
  obtain bs cur where st: "fold bullet_step (calls ctx) st = (bs, cur)"
    by (cases "fold bullet_step (calls ctx) st")
  have s1: "fold bullet_step (calls ctx1) st = (bs @ close_bullet cur, Some [])"
    using st by (simp add: ctx1_def fillText_props)
  have "\<forall>l \<in> set wl. line_x l = margin + 30"
    unfolding wl_def by (rule wrapText_x)
  from draw_lines_bullets [OF this, of ctx1 y st] s1
  have s2: "fold bullet_step (calls ctx2) st = (bs @ close_bullet cur, Some (map line_text wl))"
    by (simp add: ctx2_def)
  have "finish_bullets (fold bullet_step (calls ctx2) st)
          = finish_bullets (fold bullet_step (calls ctx) st) @ [map line_text wl]"
    by (simp add: s2 st finish_bullets_def)
  with Cons [of ctx2 "y2 + lineHeight * (5 / 10)"] step f1 f2 show ?case
    by (simp add: wl_def)
qed

lemma strip_marker_eq:
  "strip_marker l = (if startsWith (trim l) ''- '' then Some (substring (trim l) 2) else None)"
  by (auto simp: strip_marker_def startsWith_def substring_def split: list.splits)

lemma bulletPoints_marked: "bulletPoints s = marked_bullets s"
  by (simp add: bulletPoints_def marked_bullets_def List.map_filter_def strip_marker_eq
      comp_def cong: map_cong)

lemma draw_page_calls:
  "drawn_bullets (calls (fst (draw_page m (createCanvas w h) headline subheadline s)))
     = bulletPoints s"
proof -
  define ctx3 where "ctx3 =
    (fillText ((fillText ((fillRect ((createCanvas w h)\<lparr>fillStyle := ''#FFFFFF''\<rparr>) 0 0
        (of_nat page_width) (of_nat page_height))
        \<lparr>fillStyle := ''#000000'', font := headlineFont, textAlign := ''center''\<rparr>)
        headline (of_nat page_width / 2) headlineY)\<lparr>font := subheadlineFont\<rparr>)
        subheadline (of_nat page_width / 2) subheadlineY)\<lparr>font := bulletFont, textAlign := ''left''\<rparr>"
  have page: "draw_page m (createCanvas w h) headline subheadline s
                = draw_points m ctx3 bulletStartY (bulletPoints s)"
    by (simp add: draw_page_def ctx3_def Let_def)
  have "fold bullet_step (calls ctx3) ([], None) = ([], None)"
    by (simp add: ctx3_def fillText_def fillRect_def createCanvas_def page_width_def margin_def)
  then have start: "finish_bullets (fold bullet_step (calls ctx3) ([], None)) = []"
    by (simp add: finish_bullets_def)
  have "drawn_bullets (calls (fst (draw_points m ctx3 bulletStartY (bulletPoints s))))
          = map (join_with '' '')
              (map (\<lambda>p. map line_text (wrapText (m (font ctx3)) p (maxTextWidth - margin) (margin + 30)))
                 (bulletPoints s))"
    unfolding drawn_bullets_def by (simp only: draw_points_bullets start append_Nil)
  also have "\<dots> = bulletPoints s"
    by (simp add: comp_def wrapText_join)
  finally show ?thesis by (simp only: page)
qed















section \<open>Claims about the rendered page\<close>

text \<open>
  C9. For every summary text, the bullets that the drawing calls of the page show are
  exactly the newline-separated lines whose trimmed form starts with a dash and a
  space, in order, each as the trimmed line without these two characters. So a line with
  white space before the marker is a bullet, and any other line (a dash with no space
  after it, plain text) is not drawn.
\<close>

theorem rendered_bullets_are_marked_lines:
  "drawn_bullets (calls (fst (draw_page measureText (createCanvas w h) headline subheadline s)))
     = marked_bullets s"
  by (simp only: draw_page_calls bulletPoints_marked)

theorem rendered_bullets_are_marked_lines_witness:
  "drawn_bullets (calls (fst (draw_page (\<lambda>fnt. fixed_pitch 20) (createCanvas page_width page_height)
      ''Headline'' ''Sub''
      (''- A'' @ [CHR 0x0A] @ ''   - B c '' @ [CHR 0x0A] @ ''-x'' @ [CHR 0x0A] @ ''plain''
         @ [CHR 0x0A] @ ''-''))))
     = [''A'', ''B c'']"
proof -
  have "marked_bullets (''- A'' @ [CHR 0x0A] @ ''   - B c '' @ [CHR 0x0A] @ ''-x'' @ [CHR 0x0A] @ ''plain''
         @ [CHR 0x0A] @ ''-'') = [''A'', ''B c'']"
    by code_simp
  then show ?thesis by (simp only: rendered_bullets_are_marked_lines)
qed


text \<open>
  C10. For every text (the empty one too), every \<open>maxWidth\<close> and every \<open>x\<close>,
  \<^verbatim>\<open>wrapText\<close> returns at least one line and every line has the x-offset \<open>x\<close>; the
  empty text gives one empty line, so that drawing an empty bullet moves the cursor down
  by a line height and the gap between bullets.
\<close>

theorem wrapText_never_empty:
  "wrapText measureText txt maxWidth x \<noteq> [] \<and>
   (\<forall>l \<in> set (wrapText measureText txt maxWidth x). line_x l = x) \<and>
   wrapText measureText [] maxWidth x = [\<lparr>line_text = [], line_x = x\<rparr>] \<and>
   snd (draw_points m ctx currentY [[]]) = currentY + lineHeight + lineHeight * (5 / 10) \<and>
   currentY < snd (draw_points m ctx currentY [[]])"
proof -
  obtain word0 rest where sp: "split_on CHR '' '' txt = word0 # rest"
    using split_on_not_Nil [of "CHR '' ''" "txt"] by (cases "split_on CHR '' '' txt") auto
  from wrap_loop_prefix [of measureText maxWidth x word0 "[]" rest] sp
  have ne: "wrapText measureText txt maxWidth x \<noteq> []"
    by (auto simp: wrapText_def)
  have xs: "\<forall>l \<in> set (wrapText measureText txt maxWidth x). line_x l = x"
    by (rule wrapText_x)
  have empty: "\<And>f. wrapText f [] (maxTextWidth - margin) (margin + 30)
                 = [\<lparr>line_text = [], line_x = margin + 30\<rparr>]"
    by (simp add: wrapText_def)
  have cur: "snd (draw_points m ctx currentY [[]]) = currentY + lineHeight + lineHeight * (5 / 10)"
    by (simp add: Let_def split_beta empty)
  have "0 < lineHeight" by (simp add: lineHeight_def bulletFontSize_def)
  with cur have "currentY < snd (draw_points m ctx currentY [[]])" by simp
  with ne xs cur show ?thesis by (simp add: wrapText_def)
qed

theorem wrapText_never_empty_witness:
  "wrapText (fixed_pitch 20) '''' 2300 (90::rat) = [\<lparr>line_text = '''', line_x = 90\<rparr>] \<and>
   list_all (\<lambda>l. line_x l = 90) (wrapText (fixed_pitch 20) ''a b'' 3 (90::rat)) \<and>
   snd (draw_points (\<lambda>fnt. fixed_pitch 20) (createCanvas page_width page_height) 100 [[]]) = 1756 / 10"
  using wrapText_never_empty [of "fixed_pitch 20" "''a b''" 3 "90::rat" "\<lambda>fnt. fixed_pitch 20"
      "createCanvas page_width page_height" 100]
    wrapText_never_empty [of "fixed_pitch 20" "''''" 2300 "90::rat" "\<lambda>fnt. fixed_pitch 20"
      "createCanvas page_width page_height" 100]
  by (simp add: list_all_iff lineHeight_def bulletFontSize_def)




section \<open>Properties of the selections\<close>








section \<open>Claims about the extraction pipeline\<close>



text \<open>
  C8, as amended. For every string that the URL constructor rejects, which is a string
  with no scheme, a string with one of the schemes ftp, http, https, ws and wss and an
  empty authority, or a string whose authority is not accepted, the action fails with
  the message of an invalid input and makes no request: its log of effects is empty.
\<close>

theorem rejected_url_fails_before_any_request:
  assumes "url_shape url = NoScheme \<or> url_shape url = HostMissing \<or>
           (\<exists>scheme authority. url_shape url = Authority scheme authority
                                 \<and> \<not> authority_ok scheme authority)"
  shows "fetchArticleAction (new_URL authority_ok) axios_get load url
           = (ActionFailure (failure_message InvalidInput), [])"
proof -
  from assms have "\<not> new_URL authority_ok url"
    by (auto simp: new_URL_def)
  then show ?thesis by (simp add: fetchArticleAction_def)
qed

theorem rejected_url_fails_before_any_request_witness:
  "url_shape ''not a url'' = NoScheme \<and>
   fetchArticleAction (new_URL (\<lambda>scheme authority. True))
       (\<lambda>u. Resolved 200 ''<p>page</p>'') (\<lambda>body. Returns []) ''not a url''
     = (ActionFailure ''Please enter a valid URL (e.g., https://example.com)'', []) \<and>
   url_shape ''www.example.com/news'' = NoScheme \<and>
   fetchArticleAction (new_URL (\<lambda>scheme authority. True))
       (\<lambda>u. Resolved 200 ''<p>page</p>'') (\<lambda>body. Returns []) ''www.example.com/news''
     = (ActionFailure ''Please enter a valid URL (e.g., https://example.com)'', []) \<and>
   url_shape ''https://'' = HostMissing \<and>
   fetchArticleAction (new_URL (\<lambda>scheme authority. True))
       (\<lambda>u. Resolved 200 ''<p>page</p>'') (\<lambda>body. Returns []) ''https://''
     = (ActionFailure ''Please enter a valid URL (e.g., https://example.com)'', [])"
proof -
  have s1: "url_shape ''not a url'' = NoScheme" by code_simp
  have s2: "url_shape ''www.example.com/news'' = NoScheme" by code_simp
  have s3: "url_shape ''https://'' = HostMissing" by code_simp
  note t = rejected_url_fails_before_any_request
    [of _ "\<lambda>scheme authority. True" "\<lambda>u. Resolved 200 ''<p>page</p>''" "\<lambda>body. Returns []"]
  from s1 s2 s3 t [of "''not a url''"] t [of "''www.example.com/news''"] t [of "''https://''"]
  show ?thesis by simp
qed


text \<open>
  C8 as stated fails: \<open>foo:bar\<close> has a scheme and no host, the constructor accepts it
  whatever the parsers of an authority do, and the action goes on to the request; when
  that is refused for its protocol, the action reports an unexpected error.
\<close>

theorem url_without_host_is_requested_counterexample:
  "url_shape ''foo:bar'' = NoAuthority \<and>
   new_URL (\<lambda>scheme authority. False) ''foo:bar'' \<and>
   fetchArticleAction (new_URL (\<lambda>scheme authority. False)) (\<lambda>u. RejectedOther)
       (\<lambda>body. Throws) ''foo:bar''
     = (ActionFailure ''An unexpected error occurred while fetching the article.'',
        [HttpGet ''foo:bar'', ConsoleError ''Error fetching article:''])"
proof -
  have s: "url_shape ''foo:bar'' = NoAuthority" by code_simp
  then have "new_URL (\<lambda>scheme authority. False) ''foo:bar''"
    by (simp add: new_URL_def)
  with s show ?thesis by (simp add: fetchArticleAction_def)
qed

text \<open>
  C5. For every URL that passed validation and every outcome of the request that is
  not a status from 200 to 299, the action fails and reports the kind of the outcome:
  no response at all gives the network error, status 401 or 403 access denied, status
  404 not found, any other status outside 200 to 299 the fetch failure with that
  status; it never succeeds.
\<close>

theorem http_failure_is_typed_failure:
  assumes "URL_parses url"
  shows "(network url = NoResponse \<longrightarrow>
            fst (fetchArticleAction URL_parses (\<lambda>u. axios_default (network u)) load url)
              = ActionFailure (failure_message NetworkError)) \<and>
         (\<forall>status body.
            network url = HttpResponse status body \<and> \<not> (200 \<le> status \<and> status < 300) \<longrightarrow>
            fst (fetchArticleAction URL_parses (\<lambda>u. axios_default (network u)) load url)
              = ActionFailure (failure_message
                  (if status = 401 \<or> status = 403 then AccessDenied
                   else if status = 404 then NotFound
                   else FetchFailed status))) \<and>
         ((\<forall>status body. network url = HttpResponse status body
              \<longrightarrow> \<not> (200 \<le> status \<and> status < 300)) \<longrightarrow>
            \<not> isSuccess (fst (fetchArticleAction URL_parses (\<lambda>u. axios_default (network u)) load url)))"
proof (intro conjI allI impI)
  assume "network url = NoResponse"
  with assms show "fst (fetchArticleAction URL_parses (\<lambda>u. axios_default (network u)) load url)
              = ActionFailure (failure_message NetworkError)"
    by (simp add: fetchArticleAction_def)
next
  fix status body
  assume "network url = HttpResponse status body \<and> \<not> (200 \<le> status \<and> status < 300)"
  then have "axios_default (network url) = RejectedWithResponse status" by simp
  with assms show "fst (fetchArticleAction URL_parses (\<lambda>u. axios_default (network u)) load url)
              = ActionFailure (failure_message
                  (if status = 401 \<or> status = 403 then AccessDenied
                   else if status = 404 then NotFound
                   else FetchFailed status))"
    by (simp add: fetchArticleAction_def del: decimal.simps)
next
  assume bad: "\<forall>status body. network url = HttpResponse status body
              \<longrightarrow> \<not> (200 \<le> status \<and> status < 300)"
  show "\<not> isSuccess (fst (fetchArticleAction URL_parses (\<lambda>u. axios_default (network u)) load url))"
  proof (cases "network url")
    case NoResponse
    with assms show ?thesis by (simp add: fetchArticleAction_def)
  next
    case (HttpResponse status body)
    with bad have "\<not> (200 \<le> status \<and> status < 300)" by blast
    with HttpResponse have "axios_default (network url) = RejectedWithResponse status" by simp
    with assms show ?thesis
      by (simp add: fetchArticleAction_def del: decimal.simps)
  qed
qed

theorem http_failure_is_typed_failure_witness:
  "fst (fetchArticleAction (\<lambda>u. True) (\<lambda>u. axios_default NoResponse) (\<lambda>body. Returns []) ''https://example.com/a'')
     = ActionFailure ''Network error: Could not reach the server.'' \<and>
   fst (fetchArticleAction (\<lambda>u. True) (\<lambda>u. axios_default (HttpResponse 403 ''denied''))
          (\<lambda>body. Returns []) ''https://example.com/a'')
     = ActionFailure ''Article unavailable: Access denied (possibly behind a paywall).'' \<and>
   fst (fetchArticleAction (\<lambda>u. True) (\<lambda>u. axios_default (HttpResponse 404 ''''))
          (\<lambda>body. Returns []) ''https://example.com/a'')
     = ActionFailure ''Article not found (404).'' \<and>
   fst (fetchArticleAction (\<lambda>u. True) (\<lambda>u. axios_default (HttpResponse 503 ''''))
          (\<lambda>body. Returns []) ''https://example.com/a'')
     = ActionFailure ''Failed to fetch article: HTTP Status 503''"
proof -
  have d: "decimal 503 = ''503''" by code_simp
  note t = http_failure_is_typed_failure [of "\<lambda>u. True" "''https://example.com/a''" _ "\<lambda>body. Returns []", OF TrueI]
  have 1: "fst (fetchArticleAction (\<lambda>u. True) (\<lambda>u. axios_default NoResponse) (\<lambda>body. Returns []) ''https://example.com/a'')
     = ActionFailure ''Network error: Could not reach the server.''"
    using t [of "\<lambda>u. NoResponse"] by simp
  have 2: "fst (fetchArticleAction (\<lambda>u. True) (\<lambda>u. axios_default (HttpResponse 403 ''denied''))
          (\<lambda>body. Returns []) ''https://example.com/a'')
     = ActionFailure ''Article unavailable: Access denied (possibly behind a paywall).''"
    using t [of "\<lambda>u. HttpResponse 403 ''denied''"] by simp
  have 3: "fst (fetchArticleAction (\<lambda>u. True) (\<lambda>u. axios_default (HttpResponse 404 ''''))
          (\<lambda>body. Returns []) ''https://example.com/a'')
     = ActionFailure ''Article not found (404).''"
    using t [of "\<lambda>u. HttpResponse 404 ''''"] by simp
  have 4: "fst (fetchArticleAction (\<lambda>u. True) (\<lambda>u. axios_default (HttpResponse 503 ''''))
          (\<lambda>body. Returns []) ''https://example.com/a'')
     = ActionFailure ''Failed to fetch article: HTTP Status 503''"
    using t [of "\<lambda>u. HttpResponse 503 ''''"] d by (simp del: decimal.simps)
  from 1 2 3 4 show ?thesis by (intro conjI)
qed


text \<open>
  C6. For every loaded document whose collected text is shorter than 50 characters, the
  action fails with the message of insufficient content; it does not succeed with a
  shortened text.
\<close>

theorem short_text_is_insufficient_content:
  assumes "URL_parses url" and "axios_get url = Resolved 200 body"
    and "load body = Returns loaded"
    and "length (articleText loaded) < 50"
  shows "fst (fetchArticleAction URL_parses axios_get load url)
           = ActionFailure (failure_message InsufficientContent) \<and>
         \<not> isSuccess (fst (fetchArticleAction URL_parses axios_get load url))"
  using assms by (simp add: fetchArticleAction_def Let_def)

theorem short_text_is_insufficient_content_witness:
  "length (articleText [Element ''html'' [Element ''body''
       [Element ''p'' [TextNode ''  Subscribe to read.  '']]]]) < 50 \<and>
   fst (fetchArticleAction (\<lambda>u. True) (\<lambda>u. Resolved 200 ''<p>  Subscribe to read.  </p>'')
          (\<lambda>body. Returns [Element ''html'' [Element ''body''
             [Element ''p'' [TextNode ''  Subscribe to read.  '']]]])
          ''https://example.com/a'')
     = ActionFailure
         ''Could not find substantial article content. This might not be an article page or is behind a paywall.''"
proof -
  have short: "length (articleText [Element ''html'' [Element ''body''
       [Element ''p'' [TextNode ''  Subscribe to read.  '']]]]) < 50"
    by code_simp
  from short_text_is_insufficient_content
    [of "\<lambda>u. True" "''https://example.com/a''" "\<lambda>u. Resolved 200 ''<p>  Subscribe to read.  </p>''"
        "''<p>  Subscribe to read.  </p>''"
        "\<lambda>body. Returns [Element ''html'' [Element ''body''
             [Element ''p'' [TextNode ''  Subscribe to read.  '']]]]"
        "[Element ''html'' [Element ''body''
             [Element ''p'' [TextNode ''  Subscribe to read.  '']]]]"] short
  show ?thesis by simp
qed

end
